theory Spec2Isabelle
  imports Main "HOL-Library.Word" "HOL-Library.Signed_Division"
begin

unbundle bit_operations_syntax

section \<open>Bytes, errors and the sticky reader\<close>

type_synonym byte = "8 word"
type_synonym uint32 = "32 word"
type_synonym uint64 = "64 word"

text \<open>
  The error taxonomy of the codec. The Go code uses values of the interface \<open>error\<close>;
  the three kinds below are the ones a decode can end with.
\<close>

datatype error = TruncatedInput | MalformedValue | InvalidStoredValue

text \<open>
  Modelled from the spec: \<open>chain/errors.Reader\<close> (not part of the sources at hand).
  It wraps a source of bytes (here always a \<open>bytes.Reader\<close> over a slice, so \<open>R\<close>
  holds the bytes not yet consumed) and records the first error met in \<open>Err\<close>; once
  \<open>Err\<close> is set every later read delivers no bytes and leaves the error as it is.
\<close>

record Reader =
  R :: "byte list"
  Err :: "error option"

definition NewReader :: "byte list \<Rightarrow> Reader" where
  "NewReader buf = \<lparr>R = buf, Err = None\<rparr>"

text \<open>
  \<open>io.ReadFull(r, p)\<close> through the sticky reader: \<open>p\<close> is the buffer as it was before
  the call and the result its contents afterwards. A buffer of length 0 asks for nothing.
  A short source fills what it can, keeps the rest of \<open>p\<close> and records the truncation.
\<close>

definition ReadFull :: "Reader \<Rightarrow> byte list \<Rightarrow> byte list \<times> Reader" where
  "ReadFull r p =
     (if Err r \<noteq> None \<or> p = [] then (p, r)
      else if length p \<le> length (R r)
        then (take (length p) (R r), r\<lparr>R := drop (length p) (R r)\<rparr>)
      else (R r @ drop (length (R r)) p, r\<lparr>R := [], Err := Some TruncatedInput\<rparr>))"

section \<open>Primitive codec\<close>

text \<open>
  Modelled from the spec: package \<open>chain/encoding/blockchain\<close> (not part of the
  sources at hand). Fixed-width integers are written in one fixed byte order (least
  significant byte first); variable-length integers use seven payload bits per byte
  with a continuation bit, at most ten bytes for 64 bits, and exactly one valid byte
  sequence per value; byte strings are a variable-length count followed by the bytes.
\<close>

fun put_le :: "nat \<Rightarrow> 'a::len word \<Rightarrow> byte list" where
  "put_le 0 v = []"
| "put_le (Suc n) v = ucast v # put_le n (drop_bit 8 v)"

fun get_le :: "byte list \<Rightarrow> 'a::len word" where
  "get_le [] = 0"
| "get_le (b # bs) = ucast b OR push_bit 8 (get_le bs)"

text \<open>
  Modelled from the spec: \<open>chain/errors.Writer\<close> (not part of the sources at hand),
  over a sink that takes every write, as the \<open>bytes.Buffer\<close> of \<open>Value\<close> and the hash
  of \<open>Hash\<close> do. The writer is the sequence of bytes written so far; each write appends.
\<close>

type_synonym Writer = "byte list"

definition WriteUint32 :: "Writer \<Rightarrow> uint32 \<Rightarrow> Writer" where
  "WriteUint32 w v = w @ put_le 4 v"

definition WriteUint64 :: "Writer \<Rightarrow> uint64 \<Rightarrow> Writer" where
  "WriteUint64 w v = w @ put_le 8 v"

definition Write :: "Writer \<Rightarrow> byte list \<Rightarrow> Writer" where
  "Write w p = w @ p"

definition ReadUint32 :: "Reader \<Rightarrow> uint32 \<times> Reader" where
  "ReadUint32 r = (let (buf, r') = ReadFull r (replicate 4 0) in (get_le buf, r'))"

definition ReadUint64 :: "Reader \<Rightarrow> uint64 \<times> Reader" where
  "ReadUint64 r = (let (buf, r') = ReadFull r (replicate 8 0) in (get_le buf, r'))"

function put_uvarint :: "uint64 \<Rightarrow> byte list" where
  "put_uvarint x =
     (if x < 0x80 then [ucast x]
      else (ucast x OR 0x80) # put_uvarint (drop_bit 7 x))"
  by pat_completeness auto
termination
proof (relation "measure unat")
  show "wf (measure unat)" by simp
next
  fix x :: uint64
  assume "\<not> x < 0x80"
  then have "x \<noteq> 0" by auto
  then have "0 < unat x" by (simp add: unat_gt_0)
  then have "unat x div 2 ^ 7 < unat x" by simp
  then show "(drop_bit 7 x, x) \<in> measure unat"
    by (simp add: drop_bit_eq_div unat_div)
qed

declare put_uvarint.simps [simp del]

definition WriteUvarint :: "Writer \<Rightarrow> uint64 \<Rightarrow> Writer" where
  "WriteUvarint w v = w @ put_uvarint v"

text \<open>
  Decoding a variable-length integer from the unread bytes: \<open>i\<close> counts the bytes
  consumed so far and \<open>x\<close> accumulates the value. A source that ends inside the
  integer is truncated; an eleventh byte, a tenth byte above 1 (overflow) and a final
  zero byte after the first (a redundant encoding) are malformed.
\<close>

fun get_uvarint :: "nat \<Rightarrow> uint64 \<Rightarrow> byte list \<Rightarrow> error + (uint64 \<times> byte list)" where
  "get_uvarint i x [] = Inl TruncatedInput"
| "get_uvarint i x (b # bs) =
     (if b < 0x80 then
        (if i = 9 \<and> 1 < b then Inl MalformedValue
         else if 0 < i \<and> b = 0 then Inl MalformedValue
         else Inr (x OR push_bit (7 * i) (ucast b), bs))
      else if 9 \<le> i then Inl MalformedValue
      else get_uvarint (Suc i) (x OR push_bit (7 * i) (ucast (b AND 0x7f))) bs)"

text \<open>A failed read of a variable-length integer yields 0 and consumes the source.\<close>

definition ReadUvarint :: "Reader \<Rightarrow> uint64 \<times> Reader" where
  "ReadUvarint r =
     (if Err r \<noteq> None then (0, r)
      else case get_uvarint 0 0 (R r) of
        Inl e \<Rightarrow> (0, r\<lparr>R := [], Err := Some e\<rparr>)
      | Inr (v, rest) \<Rightarrow> (v, r\<lparr>R := rest\<rparr>))"

definition WriteBytes :: "Writer \<Rightarrow> byte list \<Rightarrow> Writer" where
  "WriteBytes w b = Write (WriteUvarint w (of_nat (length b))) b"

text \<open>
  \<open>ReadBytes(r, &b)\<close>: the count, then that many bytes into a fresh buffer which
  replaces \<open>b\<close>. When the count itself cannot be read \<open>b\<close> keeps its value.
\<close>

definition ReadBytes :: "Reader \<Rightarrow> byte list \<Rightarrow> byte list \<times> Reader" where
  "ReadBytes r b =
     (let (n, r1) = ReadUvarint r in
      if Err r1 \<noteq> None then (b, r1)
      else ReadFull r1 (replicate (unat n) 0))"

section \<open>Block headers\<close>

type_synonym Hash = "byte list"

record BlockHeader =
  Version :: uint32
  Height :: uint64
  PreviousBlockHash :: Hash
  Commitment :: "byte list"
  Timestamp :: uint64
  SignatureScript :: "byte list"
  OutputScript :: "byte list"

text \<open>
  What the Go types guarantee of a header value: the previous block hash is an array of
  32 bytes and the length of a slice fits the 64-bit count written before it.
\<close>

definition header_ok :: "BlockHeader \<Rightarrow> bool" where
  "header_ok bh =
     (length (PreviousBlockHash bh) = 32 \<and>
      length (Commitment bh) < 2 ^ 64 \<and>
      length (SignatureScript bh) < 2 ^ 64 \<and>
      length (OutputScript bh) < 2 ^ 64)"

text \<open>The zero value of the struct, the "fresh receiver" of a decode.\<close>

definition zeroHeader :: BlockHeader where
  "zeroHeader =
     \<lparr>Version = 0, Height = 0, PreviousBlockHash = replicate 32 0, Commitment = [],
      Timestamp = 0, SignatureScript = [], OutputScript = []\<rparr>"

definition BlockHeader_writeTo :: "Writer \<Rightarrow> bool \<Rightarrow> BlockHeader \<Rightarrow> Writer" where
  "BlockHeader_writeTo w forSigning bh =
     (let w = WriteUint32 w (Version bh);
          w = WriteUint64 w (Height bh);
          w = Write w (PreviousBlockHash bh);
          w = WriteBytes w (Commitment bh);
          w = WriteUint64 w (Timestamp bh);
          w = (if forSigning then WriteBytes w []
               else WriteBytes w (SignatureScript bh))
      in WriteBytes w (OutputScript bh))"

definition BlockHeader_WriteTo :: "Writer \<Rightarrow> BlockHeader \<Rightarrow> Writer" where
  "BlockHeader_WriteTo w bh = BlockHeader_writeTo w False bh"

definition BlockHeader_WriteForSigTo :: "Writer \<Rightarrow> BlockHeader \<Rightarrow> Writer" where
  "BlockHeader_WriteForSigTo w bh = BlockHeader_writeTo w True bh"

definition BlockHeader_readFrom :: "BlockHeader \<Rightarrow> Reader \<Rightarrow> BlockHeader \<times> Reader" where
  "BlockHeader_readFrom bh r =
     (let (v, r) = ReadUint32 r;
          bh = bh\<lparr>Version := v\<rparr>;
          (h, r) = ReadUint64 r;
          bh = bh\<lparr>Height := h\<rparr>;
          (p, r) = ReadFull r (PreviousBlockHash bh);
          bh = bh\<lparr>PreviousBlockHash := p\<rparr>;
          (c, r) = ReadBytes r (Commitment bh);
          bh = bh\<lparr>Commitment := c\<rparr>;
          (t, r) = ReadUint64 r;
          bh = bh\<lparr>Timestamp := t\<rparr>;
          (s, r) = ReadBytes r (SignatureScript bh);
          bh = bh\<lparr>SignatureScript := s\<rparr>;
          (out, r) = ReadBytes r (OutputScript bh);
          bh = bh\<lparr>OutputScript := out\<rparr>
      in (bh, r))"

text \<open>
  The hash function of \<open>chain/crypto/hash256\<close> is not part of the sources at hand; the
  header hashes take it as the parameter \<open>hash256\<close>, applied to everything written.
\<close>

definition BlockHeader_Hash :: "(byte list \<Rightarrow> Hash) \<Rightarrow> BlockHeader \<Rightarrow> Hash" where
  "BlockHeader_Hash hash256 bh = hash256 (BlockHeader_WriteTo [] bh)"

definition HashForSig :: "(byte list \<Rightarrow> Hash) \<Rightarrow> BlockHeader \<Rightarrow> Hash" where
  "HashForSig hash256 bh = hash256 (BlockHeader_WriteForSigTo [] bh)"

section \<open>Commitment accessors\<close>

text \<open>
  Go's \<open>copy(dst, src)\<close> overwrites the first \<open>min (len dst) (len src)\<close> bytes of
  \<open>dst\<close>; \<open>copy_bytes\<close> returns \<open>dst\<close> afterwards. A slice expression \<open>c[lo:hi]\<close>
  shares the bytes of \<open>c\<close>, so copying into it changes \<open>c\<close> at \<open>lo..<hi\<close>:
  \<open>copy_into\<close>. Every slice expression below is guarded by a length test, as it is in
  the source, so none of them can be out of range.
\<close>

definition copy_bytes :: "byte list \<Rightarrow> byte list \<Rightarrow> byte list" where
  "copy_bytes dst src = take (length dst) src @ drop (length src) dst"

definition slice :: "byte list \<Rightarrow> nat \<Rightarrow> nat \<Rightarrow> byte list" where
  "slice c lo hi = take (hi - lo) (drop lo c)"

definition copy_into :: "byte list \<Rightarrow> nat \<Rightarrow> nat \<Rightarrow> byte list \<Rightarrow> byte list" where
  "copy_into c lo hi src = take lo c @ copy_bytes (slice c lo hi) src @ drop hi c"

definition TxRoot :: "BlockHeader \<Rightarrow> Hash" where
  "TxRoot bh =
     (let hash = replicate 32 0 in
      if 32 \<le> length (Commitment bh)
      then copy_bytes hash (slice (Commitment bh) 0 32)
      else hash)"

definition SetTxRoot :: "BlockHeader \<Rightarrow> Hash \<Rightarrow> BlockHeader" where
  "SetTxRoot bh h =
     (let bh = (if length (Commitment bh) < 32
                then bh\<lparr>Commitment := replicate 32 0\<rparr> else bh)
      in bh\<lparr>Commitment := copy_into (Commitment bh) 0 32 h\<rparr>)"

definition StateRoot :: "BlockHeader \<Rightarrow> Hash" where
  "StateRoot bh =
     (let hash = replicate 32 0 in
      if 64 \<le> length (Commitment bh)
      then copy_bytes hash (slice (Commitment bh) 32 64)
      else hash)"

definition SetStateRoot :: "BlockHeader \<Rightarrow> Hash \<Rightarrow> BlockHeader" where
  "SetStateRoot bh h =
     (let bh = (if length (Commitment bh) < 64
                then (let newComm = replicate 64 0;
                          newComm = copy_bytes newComm (Commitment bh)
                      in bh\<lparr>Commitment := newComm\<rparr>)
                else bh)
      in bh\<lparr>Commitment := copy_into (Commitment bh) 32 64 h\<rparr>)"

section \<open>Time\<close>

text \<open>
  A \<open>time.Time\<close> as the Go library keeps it: \<open>sec\<close>, an \<open>int64\<close>, counts seconds
  from January 1 of year 1, \<open>nsec\<close> is the nanosecond within the second and \<open>loc\<close>
  the location. \<open>time.Unix\<close> adds the 62135596800 seconds between year 1 and 1970 to
  its argument, in \<open>int64\<close> arithmetic, which wraps around. \<open>Before\<close> compares the
  stored seconds as signed numbers.
\<close>

datatype Location = Local | UTC

record Time =
  sec :: "64 word"
  nsec :: "32 word"
  loc :: Location

definition unixToInternal :: "64 word" where
  "unixToInternal = 62135596800"

definition time_Unix :: "64 word \<Rightarrow> 64 word \<Rightarrow> Time" where
  "time_Unix s ns =
     (let (s, ns) =
        (if ns <s 0 \<or> 1000000000 <=s ns
         then (let n = word_of_int (sint ns sdiv 1000000000);
                   s = s + n;
                   ns = ns - n * 1000000000
               in if ns <s 0 then (s - 1, ns + 1000000000) else (s, ns))
         else (s, ns))
      in \<lparr>sec = s + unixToInternal, nsec = ucast ns, loc = Local\<rparr>)"

definition time_UTC :: "Time \<Rightarrow> Time" where
  "time_UTC t = t\<lparr>loc := UTC\<rparr>"

definition Time_Before :: "Time \<Rightarrow> Time \<Rightarrow> bool" where
  "Time_Before t u = (sec t <s sec u \<or> sec t = sec u \<and> nsec t <s nsec u)"

text \<open>
  The instant a \<open>Time\<close> stands for, in whole seconds from the Unix epoch (negative
  before it): the stored seconds, read as the signed number they are, less the seconds
  between year 1 and 1970.
\<close>

definition secondsSinceEpoch :: "Time \<Rightarrow> int" where
  "secondsSinceEpoch t = sint (sec t) - 62135596800"

text \<open>
  \<open>Time\<close> passes \<open>int64(bh.Timestamp)\<close> to \<open>time.Unix\<close>: the conversion keeps the 64
  bits, which \<open>time.Unix\<close> then reads as a signed number.
\<close>

definition BlockHeader_Time :: "BlockHeader \<Rightarrow> Time" where
  "BlockHeader_Time bh = time_UTC (time_Unix (Timestamp bh) 0)"

section \<open>Transactions and blocks\<close>

text \<open>
  Modelled from the spec: the transaction type (\<open>Tx\<close>, \<open>TxData\<close>, \<open>NewTx\<close> are not part
  of the sources at hand). A transaction pairs its payload with the identity computed
  from it once, at construction. The payload's fields and codec are outside the spec,
  so they are parameters, collected in \<open>TxCodec\<close>:
  \<^item> \<open>decode\<close>: what \<open>TxData.readFrom\<close> makes of the unread bytes of a reader that has
    not failed: the payload, the bytes left, and the error if the read failed;
  \<^item> \<open>failed\<close>: the payload \<open>TxData.readFrom\<close> leaves when the reader had failed before
    (every read then delivers nothing);
  \<^item> \<open>encode\<close>: the bytes \<open>Tx.WriteTo\<close> writes;
  \<^item> \<open>hash\<close>: the identity \<open>NewTx\<close> computes.
\<close>

record 'd Tx =
  payload :: 'd
  identity :: Hash

record 'd TxCodec =
  decode :: "byte list \<Rightarrow> 'd \<times> byte list \<times> error option"
  failed :: 'd
  encode :: "'d \<Rightarrow> byte list"
  hash :: "'d \<Rightarrow> Hash"

definition NewTx :: "'d TxCodec \<Rightarrow> 'd \<Rightarrow> 'd Tx" where
  "NewTx C data = \<lparr>payload = data, identity = hash C data\<rparr>"

definition TxData_readFrom :: "'d TxCodec \<Rightarrow> Reader \<Rightarrow> 'd \<times> Reader" where
  "TxData_readFrom C r =
     (if Err r \<noteq> None then (failed C, r)
      else (let (data, rest, e) = decode C (R r) in (data, r\<lparr>R := rest, Err := e\<rparr>)))"

definition Tx_WriteTo :: "'d TxCodec \<Rightarrow> Writer \<Rightarrow> 'd Tx \<Rightarrow> Writer" where
  "Tx_WriteTo C w tx = Write w (encode C (payload tx))"

record 'd Block =
  BlockHeader :: BlockHeader
  Transactions :: "'d Tx list"

text \<open>
  The loop of \<open>Block.readFrom\<close>, \<open>for n := ReadUvarint(r); n > 0; n--\<close>: the body runs
  \<open>n\<close> times whatever the reader's state, each time appending a transaction. Here the
  list can always take one more; \<open>readTxs_within\<close> below is the same loop over a slice
  that cannot, and the two agree whenever the slice has room for \<open>n\<close> more.
\<close>

fun readTxs :: "'d TxCodec \<Rightarrow> nat \<Rightarrow> 'd Block \<Rightarrow> Reader \<Rightarrow> 'd Block \<times> Reader" where
  "readTxs C 0 b r = (b, r)"
| "readTxs C (Suc n) b r =
     (let (data, r) = TxData_readFrom C r;
          tx = NewTx C data;
          b = b\<lparr>Transactions := Transactions b @ [tx]\<rparr>
      in readTxs C n b r)"

definition Block_readFrom :: "'d TxCodec \<Rightarrow> 'd Block \<Rightarrow> Reader \<Rightarrow> 'd Block \<times> Reader" where
  "Block_readFrom C b r =
     (let (bh, r) = BlockHeader_readFrom (BlockHeader b) r;
          b = b\<lparr>BlockHeader := bh\<rparr>;
          (n, r) = ReadUvarint r
      in readTxs C (unat n) b r)"

definition Block_writeTo :: "'d TxCodec \<Rightarrow> Writer \<Rightarrow> bool \<Rightarrow> 'd Block \<Rightarrow> Writer" where
  "Block_writeTo C w forSigning b =
     (let w = BlockHeader_writeTo w forSigning (BlockHeader b) in
      if \<not> forSigning
      then (let w = WriteUvarint w (of_nat (length (Transactions b)))
            in foldl (Tx_WriteTo C) w (Transactions b))
      else w)"

definition Block_WriteTo :: "'d TxCodec \<Rightarrow> Writer \<Rightarrow> 'd Block \<Rightarrow> Writer" where
  "Block_WriteTo C w b = Block_writeTo C w False b"

section \<open>The persistence adapter\<close>

text \<open>
  \<open>Scan\<close> receives an \<open>interface{}\<close>; the values a database driver hands over are the
  ones of \<open>driver.Value\<close> (a float is kept as its 64 bits). Only the byte slice is
  decoded. \<open>Scan\<close> works on its receiver in place and returns the error, so the model
  returns the receiver afterwards and the error. \<open>Value\<close> writes into a fresh buffer,
  which cannot fail.
\<close>

datatype driver_Value =
  VNil | VInt64 "64 word" | VFloat64 "64 word" | VBool bool | VString string
  | VTime Time | VBytes "byte list"

definition BlockHeader_Scan :: "BlockHeader \<Rightarrow> driver_Value \<Rightarrow> BlockHeader \<times> error option" where
  "BlockHeader_Scan bh val =
     (case val of
        VBytes buf \<Rightarrow>
          (let r = NewReader buf; (bh, r) = BlockHeader_readFrom bh r in (bh, Err r))
      | _ \<Rightarrow> (bh, Some InvalidStoredValue))"

definition Block_Scan :: "'d TxCodec \<Rightarrow> 'd Block \<Rightarrow> driver_Value \<Rightarrow> 'd Block \<times> error option" where
  "Block_Scan C b val =
     (case val of
        VBytes buf \<Rightarrow>
          (let r = NewReader buf; (b, r) = Block_readFrom C b r in (b, Err r))
      | _ \<Rightarrow> (b, Some InvalidStoredValue))"

definition BlockHeader_Value :: "BlockHeader \<Rightarrow> byte list" where
  "BlockHeader_Value bh = BlockHeader_WriteTo [] bh"

definition Block_Value :: "'d TxCodec \<Rightarrow> 'd Block \<Rightarrow> byte list" where
  "Block_Value C b = Block_WriteTo C [] b"

section \<open>Slices that cannot grow without bound\<close>

text \<open>
  \<open>readTxs\<close> appends to a list that can always grow. A Go slice cannot: its length is
  an \<open>int\<close>, and the runtime ends the program (a panic, or a fatal error when memory
  runs out) rather than grow a slice beyond what it can allocate. With \<open>limit\<close> the
  greatest length the transaction slice can reach (at most \<open>2^63 - 1\<close>), \<open>append\<close> to a
  slice of that length does not return, and neither does the call in progress: \<open>None\<close>.
  The functions below are \<open>Block.readFrom\<close> and \<open>Block.Scan\<close> once more, with that
  bound on the slice.
\<close>

definition append_within :: "nat \<Rightarrow> 'a list \<Rightarrow> 'a \<Rightarrow> 'a list option" where
  "append_within limit xs x = (if length xs < limit then Some (xs @ [x]) else None)"

fun readTxs_within ::
  "nat \<Rightarrow> 'd TxCodec \<Rightarrow> nat \<Rightarrow> 'd Block \<Rightarrow> Reader \<Rightarrow> ('d Block \<times> Reader) option" where
  "readTxs_within limit C 0 b r = Some (b, r)"
| "readTxs_within limit C (Suc n) b r =
     (let (data, r) = TxData_readFrom C r;
          tx = NewTx C data
      in case append_within limit (Transactions b) tx of
           None \<Rightarrow> None
         | Some txs \<Rightarrow> readTxs_within limit C n (b\<lparr>Transactions := txs\<rparr>) r)"

definition Block_readFrom_within ::
  "nat \<Rightarrow> 'd TxCodec \<Rightarrow> 'd Block \<Rightarrow> Reader \<Rightarrow> ('d Block \<times> Reader) option" where
  "Block_readFrom_within limit C b r =
     (let (bh, r) = BlockHeader_readFrom (BlockHeader b) r;
          b = b\<lparr>BlockHeader := bh\<rparr>;
          (n, r) = ReadUvarint r
      in readTxs_within limit C (unat n) b r)"

definition Block_Scan_within ::
  "nat \<Rightarrow> 'd TxCodec \<Rightarrow> 'd Block \<Rightarrow> driver_Value \<Rightarrow> ('d Block \<times> error option) option" where
  "Block_Scan_within limit C b val =
     (case val of
        VBytes buf \<Rightarrow>
          (case Block_readFrom_within limit C b (NewReader buf) of
             None \<Rightarrow> None
           | Some (b, r) \<Rightarrow> Some (b, Err r))
      | _ \<Rightarrow> Some (b, Some InvalidStoredValue))"

text \<open>The zero value of a block: the fresh receiver of a decode.\<close>

definition zeroBlock :: "'d Block" where
  "zeroBlock = \<lparr>BlockHeader = zeroHeader, Transactions = []\<rparr>"

text \<open>
  A payload codec for the examples: the payload is an opaque byte string, written with
  its length before it, and its identity is the payload cut or padded to 32 bytes.
\<close>

definition bytesCodec :: "(byte list) TxCodec" where
  "bytesCodec =
     \<lparr>decode = (\<lambda>bs. let (d, r) = ReadBytes (NewReader bs) [] in (d, R r, Err r)),
      failed = [],
      encode = WriteBytes [],
      hash = (\<lambda>d. take 32 (d @ replicate 32 0))\<rparr>"

section \<open>Example values\<close>

definition exHeader :: BlockHeader where
  "exHeader =
     \<lparr>Version = 1, Height = 300, PreviousBlockHash = replicate 32 7,
      Commitment = [1, 2, 3], Timestamp = 1000, SignatureScript = [9],
      OutputScript = [0xAA]\<rparr>"

definition exBlock :: "(byte list) Block" where
  "exBlock =
     \<lparr>BlockHeader = exHeader,
      Transactions = [NewTx bytesCodec [1, 2], NewTx bytesCodec [3]]\<rparr>"

text \<open>The stored bytes of \<open>exBlock\<close> with the last byte missing.\<close>

definition exTruncated :: "byte list" where
  "exTruncated = butlast (Block_Value bytesCodec exBlock)"

section \<open>The primitive codec round trip\<close>

lemma length_put_le [simp]: "length (put_le n v) = n"
  by (induction n arbitrary: v) simp_all

lemma get_put_le: "get_le (put_le n v) = (take_bit (8 * n) v :: 'a::len word)"
proof (induction n arbitrary: v)
  case 0
  show ?case by simp
next
  case (Suc n)
  show ?case
    by (simp add: Suc) (rule bit_word_eqI, auto simp add: bit_simps)
qed

lemma get_put_le32 [simp]: "get_le (put_le 4 v) = (v :: uint32)"
  by (simp add: get_put_le take_bit_word_eq_self)

lemma get_put_le64 [simp]: "get_le (put_le 8 v) = (v :: uint64)"
  by (simp add: get_put_le take_bit_word_eq_self)

lemma strip_cont: "((b OR 0x80) AND 0x7f :: byte) = take_bit 7 b"
proof -
  have a: "(b OR 0x80) AND 0x7f = (b AND 0x7f) OR (0x80 AND 0x7f)"
    by (simp add: bit.conj_disj_distrib2)
  have b: "(0x80 AND 0x7f :: byte) = 0" by simp
  have c: "(0x7f :: byte) = mask 7" by (simp add: mask_eq_exp_minus_1)
  have "(b OR 0x80) AND 0x7f = b AND 0x7f" using a b by simp
  also have "\<dots> = take_bit 7 b" by (simp only: c take_bit_eq_mask)
  finally show ?thesis .
qed

lemma ucast_low7: "(ucast (take_bit 7 (ucast x :: byte)) :: uint64) = take_bit 7 (x :: uint64)"
  by (rule bit_word_eqI) (auto simp add: bit_simps)

lemma rejoin0: "take_bit 7 x OR push_bit 7 (drop_bit 7 x) = (x :: uint64)"
proof (rule bit_word_eqI)
  fix n assume "n < LENGTH(64)"
  then show "bit (take_bit 7 x OR push_bit 7 (drop_bit 7 x)) n = bit x n"
    by (cases "n < 7") (auto simp add: bit_simps)
qed

lemma rejoin:
  "push_bit k (take_bit 7 x) OR push_bit (7 + k) (drop_bit 7 x) = push_bit k (x :: uint64)"
proof -
  have "push_bit k (take_bit 7 x OR push_bit 7 (drop_bit 7 x)) = push_bit k x"
    by (simp only: rejoin0)
  then show ?thesis by (simp add: add.commute)
qed

lemma uvarint_split:
  "push_bit k (ucast ((ucast x OR 0x80 :: byte) AND 0x7f)) OR push_bit (7 + k) (drop_bit 7 x)
   = push_bit k (x :: uint64)"
  by (simp only: strip_cont ucast_low7 rejoin)

lemma unat_low: "x < 0x80 \<Longrightarrow> unat (ucast (x::uint64) :: byte) = unat x"
  by (simp add: unsigned_ucast_eq word_less_nat_alt take_bit_nat_eq_self)

lemma ucast_low: "x < 0x80 \<Longrightarrow> ucast (ucast (x::uint64) :: byte) = x"
  by (rule word_unat_eq_iff [THEN iffD2])
     (simp add: unsigned_ucast_eq unsigned_take_bit_eq word_less_nat_alt take_bit_nat_eq_self)

lemma cont_ge: "\<not> (b OR 0x80 :: byte) < 0x80"
  using le_word_or1 [of "0x80" b] by simp

lemma get_put_uvarint:
  "i \<le> 9 \<Longrightarrow> unat x < 2 ^ (64 - 7 * i) \<Longrightarrow> (0 < i \<longrightarrow> x \<noteq> 0) \<Longrightarrow>
   get_uvarint i acc (put_uvarint x @ rest) = Inr (acc OR push_bit (7 * i) x, rest)"
proof (induction x arbitrary: i acc rule: put_uvarint.induct)
  case (1 x)
  show ?case
  proof (cases "x < 0x80")
    case True
    have lt: "(ucast x :: byte) < 0x80"
      using True by (simp add: word_less_nat_alt unat_low)
    have le1: "i = 9 \<Longrightarrow> \<not> 1 < (ucast x :: byte)"
      using True "1.prems"(2) by (simp add: word_less_nat_alt unat_low)
    have ne0: "0 < i \<Longrightarrow> (ucast x :: byte) \<noteq> 0"
      using True "1.prems"(3) unat_low [of x] by (metis unat_0_iff unsigned_0)
    show ?thesis
      using True lt le1 ne0 by (subst put_uvarint.simps) (auto simp add: ucast_low)
  next
    case False
    have i8: "i \<le> 8"
    proof (rule ccontr)
      assume "\<not> i \<le> 8"
      with "1.prems"(1) have "i = 9" by simp
      with "1.prems"(2) have "unat x < 2" by simp
      with False show False by (simp add: word_less_nat_alt)
    qed
    have nz: "drop_bit 7 x \<noteq> 0"
    proof
      assume "drop_bit 7 x = 0"
      then have "unat x div 2 ^ 7 = 0"
        by (metis unat_drop_bit_eq drop_bit_eq_div unsigned_0)
      with False show False by (simp add: word_less_nat_alt)
    qed
    have bound: "unat (drop_bit 7 x) < 2 ^ (64 - 7 * Suc i)"
    proof -
      have "64 - 7 * i = (64 - 7 * Suc i) + 7"
        using i8 by simp
      then have "(2::nat) ^ (64 - 7 * i) = 2 ^ (64 - 7 * Suc i) * 2 ^ 7"
        by (simp only: power_add)
      then have "unat x < 2 ^ (64 - 7 * Suc i) * 2 ^ 7"
        using "1.prems"(2) by simp
      then have "unat x div 2 ^ 7 < 2 ^ (64 - 7 * Suc i)"
        by (simp add: less_mult_imp_div_less)
      then show ?thesis by (simp add: drop_bit_eq_div unat_div)
    qed
    have "get_uvarint (Suc i) (acc OR push_bit (7 * i) (ucast ((ucast x OR 0x80 :: byte) AND 0x7f)))
            (put_uvarint (drop_bit 7 x) @ rest)
          = Inr ((acc OR push_bit (7 * i) (ucast ((ucast x OR 0x80 :: byte) AND 0x7f)))
                   OR push_bit (7 * Suc i) (drop_bit 7 x), rest)"
      using i8 nz bound by (intro "1.IH" [OF False]) simp_all
    also have "(acc OR push_bit (7 * i) (ucast ((ucast x OR 0x80 :: byte) AND 0x7f)))
                   OR push_bit (7 * Suc i) (drop_bit 7 x) = acc OR push_bit (7 * i) x"
      using uvarint_split [of "7 * i" x] by (simp add: or.assoc)
    finally show ?thesis
      using False i8 cont_ge by (subst put_uvarint.simps) simp
  qed
qed

lemma ReadFull_ok:
  "length p = length q \<Longrightarrow>
   ReadFull \<lparr>R = q @ rest, Err = None\<rparr> p = (q, \<lparr>R = rest, Err = None\<rparr>)"
  by (auto simp add: ReadFull_def)

lemma ReadUint32_ok:
  "ReadUint32 \<lparr>R = put_le 4 v @ rest, Err = None\<rparr> = (v, \<lparr>R = rest, Err = None\<rparr>)"
  by (simp add: ReadUint32_def ReadFull_ok)

lemma ReadUint64_ok:
  "ReadUint64 \<lparr>R = put_le 8 v @ rest, Err = None\<rparr> = (v, \<lparr>R = rest, Err = None\<rparr>)"
  by (simp add: ReadUint64_def ReadFull_ok)

lemma ReadUvarint_ok:
  "ReadUvarint \<lparr>R = put_uvarint x @ rest, Err = None\<rparr> = (x, \<lparr>R = rest, Err = None\<rparr>)"
proof -
  have "get_uvarint 0 0 (put_uvarint x @ rest) = Inr (0 OR push_bit (7 * 0) x, rest)"
    by (rule get_put_uvarint) (use unsigned_less [of x, where 'a = nat] in simp_all)
  then show ?thesis by (simp add: ReadUvarint_def)
qed

lemma ReadBytes_ok:
  "length b < 2 ^ 64 \<Longrightarrow>
   ReadBytes \<lparr>R = put_uvarint (of_nat (length b)) @ b @ rest, Err = None\<rparr> old
     = (b, \<lparr>R = rest, Err = None\<rparr>)"
  by (simp add: ReadBytes_def ReadUvarint_ok ReadFull_ok unat_of_nat)

lemma BlockHeader_writeTo_bytes:
  "BlockHeader_writeTo w forSigning bh =
     w @ put_le 4 (Version bh) @ put_le 8 (Height bh) @ PreviousBlockHash bh
       @ put_uvarint (of_nat (length (Commitment bh))) @ Commitment bh
       @ put_le 8 (Timestamp bh)
       @ (if forSigning then put_uvarint 0
          else put_uvarint (of_nat (length (SignatureScript bh))) @ SignatureScript bh)
       @ put_uvarint (of_nat (length (OutputScript bh))) @ OutputScript bh"
  by (simp add: BlockHeader_writeTo_def WriteUint32_def WriteUint64_def Write_def
        WriteBytes_def WriteUvarint_def)

lemma BlockHeader_readFrom_writeTo:
  assumes "header_ok h" and "length (PreviousBlockHash bh0) = 32"
  shows "BlockHeader_readFrom bh0 \<lparr>R = BlockHeader_writeTo [] False h @ rest, Err = None\<rparr>
           = (h, \<lparr>R = rest, Err = None\<rparr>)"
  using assms
  by (simp add: BlockHeader_writeTo_bytes BlockHeader_readFrom_def header_ok_def
        ReadUint32_ok ReadUint64_ok ReadFull_ok ReadBytes_ok)

section \<open>Writers append\<close>

lemma BlockHeader_writeTo_append:
  "BlockHeader_writeTo w forSigning bh = w @ BlockHeader_writeTo [] forSigning bh"
  by (simp add: BlockHeader_writeTo_bytes)

lemma foldl_Tx_WriteTo:
  "foldl (Tx_WriteTo C) w txs = w @ concat (map (\<lambda>tx. encode C (payload tx)) txs)"
  by (induction txs arbitrary: w) (simp_all add: Tx_WriteTo_def Write_def)

lemma Block_writeTo_bytes:
  "Block_writeTo C w False b =
     w @ BlockHeader_writeTo [] False (BlockHeader b)
       @ put_uvarint (of_nat (length (Transactions b)))
       @ concat (map (\<lambda>tx. encode C (payload tx)) (Transactions b))"
  by (simp add: Block_writeTo_def foldl_Tx_WriteTo WriteUvarint_def
        BlockHeader_writeTo_append [of w])

section \<open>Decoding what was encoded\<close>

lemma readTxs_ok:
  assumes "\<forall>tx \<in> set txs. tx = NewTx C (payload tx) \<and>
             (\<forall>rest. decode C (encode C (payload tx) @ rest) = (payload tx, rest, None))"
  shows "readTxs C (length txs) b
           \<lparr>R = concat (map (\<lambda>tx. encode C (payload tx)) txs) @ rest, Err = None\<rparr>
         = (b\<lparr>Transactions := Transactions b @ txs\<rparr>, \<lparr>R = rest, Err = None\<rparr>)"
  using assms
proof (induction txs arbitrary: b)
  case Nil
  show ?case by simp
next
  case (Cons tx txs)
  from Cons.prems have tx: "NewTx C (payload tx) = tx"
    and dec: "\<And>rest. decode C (encode C (payload tx) @ rest) = (payload tx, rest, None)"
    by simp_all
  from Cons.prems have rest: "\<forall>tx \<in> set txs. tx = NewTx C (payload tx) \<and>
             (\<forall>rest. decode C (encode C (payload tx) @ rest) = (payload tx, rest, None))"
    by simp
  show ?case
    by (simp add: TxData_readFrom_def dec tx Cons.IH [OF rest])
qed

lemma Block_readFrom_writeTo:
  assumes "header_ok (BlockHeader x)" and "length (Transactions x) < 2 ^ 64"
    and "\<forall>tx \<in> set (Transactions x). tx = NewTx C (payload tx) \<and>
             (\<forall>rest. decode C (encode C (payload tx) @ rest) = (payload tx, rest, None))"
    and "length (PreviousBlockHash (BlockHeader b)) = 32"
  shows "Block_readFrom C b \<lparr>R = Block_writeTo C [] False x @ rest, Err = None\<rparr>
         = (\<lparr>BlockHeader = BlockHeader x, Transactions = Transactions b @ Transactions x\<rparr>,
            \<lparr>R = rest, Err = None\<rparr>)"
  using assms(1,2,4)
  by (simp add: Block_writeTo_bytes Block_readFrom_def BlockHeader_readFrom_writeTo
        ReadUvarint_ok unat_of_nat readTxs_ok [OF assms(3)])

lemma bytesCodec_round_trip:
  "length d < 2 ^ 64 \<Longrightarrow>
   decode bytesCodec (encode bytesCodec d @ rest) = (d, rest, None)"
  by (simp add: bytesCodec_def NewReader_def WriteBytes_def Write_def WriteUvarint_def
        ReadBytes_ok)

lemma exHeader_ok: "header_ok exHeader"
  by (simp add: header_ok_def exHeader_def)

lemma zeroHeader_hash_length: "length (PreviousBlockHash zeroHeader) = 32"
  by (simp add: zeroHeader_def)

text \<open>
  C1. Decoding the full encoding of a header, or of a block, into a fresh receiver gives
  the value back, field for field, and consumes the input without error. The header
  is any value of the Go type (\<open>header_ok\<close>); the block's transactions carry the
  identity computed from their payload, and the payload codec, a parameter, reads back
  what it wrote.
\<close>

theorem header_block_round_trip:
  assumes "header_ok h" and "header_ok (BlockHeader x)"
    and "length (Transactions x) < 2 ^ 64"
    and "\<forall>tx \<in> set (Transactions x). tx = NewTx C (payload tx) \<and>
           (\<forall>rest. decode C (encode C (payload tx) @ rest) = (payload tx, rest, None))"
  shows "BlockHeader_readFrom zeroHeader (NewReader (BlockHeader_WriteTo [] h))
           = (h, \<lparr>R = [], Err = None\<rparr>)
       \<and> Block_readFrom C zeroBlock (NewReader (Block_WriteTo C [] x))
           = (x, \<lparr>R = [], Err = None\<rparr>)"
proof
  show "BlockHeader_readFrom zeroHeader (NewReader (BlockHeader_WriteTo [] h))
           = (h, \<lparr>R = [], Err = None\<rparr>)"
    using BlockHeader_readFrom_writeTo [OF assms(1) zeroHeader_hash_length, of "[]"]
    by (simp add: NewReader_def BlockHeader_WriteTo_def)
next
  have "length (PreviousBlockHash (BlockHeader (zeroBlock :: 'a Block))) = 32"
    by (simp add: zeroBlock_def zeroHeader_def)
  from Block_readFrom_writeTo [OF assms(2,3,4) this, of "[]"]
  show "Block_readFrom C zeroBlock (NewReader (Block_WriteTo C [] x))
           = (x, \<lparr>R = [], Err = None\<rparr>)"
    by (simp add: NewReader_def Block_WriteTo_def zeroBlock_def)
qed

theorem header_block_round_trip_witness:
  "header_ok exHeader \<and> length (Transactions exBlock) < 2 ^ 64
   \<and> Transactions exBlock = map (NewTx bytesCodec) [[1, 2], [3]]
   \<and> BlockHeader_readFrom zeroHeader (NewReader (BlockHeader_WriteTo [] exHeader))
       = (exHeader, \<lparr>R = [], Err = None\<rparr>)
   \<and> Block_readFrom bytesCodec zeroBlock (NewReader (Block_WriteTo bytesCodec [] exBlock))
       = (exBlock, \<lparr>R = [], Err = None\<rparr>)"
proof -
  have h: "header_ok (BlockHeader exBlock)"
    by (simp add: exBlock_def exHeader_ok)
  have n: "length (Transactions exBlock) < 2 ^ 64"
    by (simp add: exBlock_def)
  have txs: "\<forall>tx \<in> set (Transactions exBlock). tx = NewTx bytesCodec (payload tx) \<and>
     (\<forall>rest. decode bytesCodec (encode bytesCodec (payload tx) @ rest) = (payload tx, rest, None))"
    by (simp add: exBlock_def NewTx_def bytesCodec_round_trip)
  show ?thesis
    using header_block_round_trip [OF exHeader_ok h n txs] exHeader_ok n
    by (simp add: exBlock_def)
qed

section \<open>Signing\<close>

text \<open>
  C3. The hash for signing does not depend on the signature script: replacing the
  script by any other leaves \<open>HashForSig\<close> as it was, because the encoding for signing
  is the full encoding of the header with an empty signature script.
\<close>

theorem signing_hash_ignores_signature:
  "HashForSig hash256 (bh\<lparr>SignatureScript := s\<rparr>) = HashForSig hash256 bh
   \<and> BlockHeader_WriteForSigTo w (bh\<lparr>SignatureScript := s\<rparr>) = BlockHeader_WriteForSigTo w bh
   \<and> BlockHeader_WriteForSigTo w bh = BlockHeader_WriteTo w (bh\<lparr>SignatureScript := []\<rparr>)"
  by (simp add: HashForSig_def BlockHeader_WriteForSigTo_def BlockHeader_WriteTo_def
        BlockHeader_writeTo_def)

text \<open>
  C6. The encoding of a block for signing is the header's encoding for signing and
  nothing more: neither the count nor the transactions are written, so the bytes do not
  change with the transaction list.
\<close>

theorem block_for_signing_is_header_only:
  "Block_writeTo C w True b = BlockHeader_WriteForSigTo w (BlockHeader b)
   \<and> Block_writeTo C w True (b\<lparr>Transactions := txs\<rparr>) = Block_writeTo C w True b"
  by (simp add: Block_writeTo_def BlockHeader_WriteForSigTo_def)

section \<open>Commitment slots\<close>

lemma length_copy_bytes [simp]: "length (copy_bytes dst src) = length dst"
  by (simp add: copy_bytes_def)

lemma length_copy_into:
  "lo \<le> hi \<Longrightarrow> hi \<le> length c \<Longrightarrow> length (copy_into c lo hi src) = length c"
  by (simp add: copy_into_def slice_def)

lemma take_copy_into:
  "lo \<le> hi \<Longrightarrow> hi \<le> length c \<Longrightarrow> take lo (copy_into c lo hi src) = take lo c"
  by (simp add: copy_into_def slice_def)

lemma drop_copy_into:
  "lo \<le> hi \<Longrightarrow> hi \<le> length c \<Longrightarrow> drop hi (copy_into c lo hi src) = drop hi c"
  by (simp add: copy_into_def slice_def)

lemma SetTxRoot_Commitment:
  "Commitment (SetTxRoot bh h) =
     copy_into (if length (Commitment bh) < 32 then replicate 32 0 else Commitment bh) 0 32 h"
  by (simp add: SetTxRoot_def)

lemma SetStateRoot_Commitment:
  "Commitment (SetStateRoot bh h) =
     copy_into (if length (Commitment bh) < 64
                then Commitment bh @ replicate (64 - length (Commitment bh)) 0
                else Commitment bh) 32 64 h"
  by (simp add: SetStateRoot_def copy_bytes_def)

text \<open>
  C4. The setters never shorten the commitment and touch nothing but their slot (and
  no other field of the header): \<open>SetTxRoot\<close> keeps every byte from offset 32 on;
  \<open>SetStateRoot\<close> keeps the bytes below 32, a short commitment being filled up with
  zeros there, and every byte from offset 64 on.
\<close>

theorem commitment_setters_frame:
  "length (Commitment bh) \<le> length (Commitment (SetTxRoot bh h))
   \<and> drop 32 (Commitment (SetTxRoot bh h)) = drop 32 (Commitment bh)
   \<and> SetTxRoot bh h = bh\<lparr>Commitment := Commitment (SetTxRoot bh h)\<rparr>
   \<and> length (Commitment bh) \<le> length (Commitment (SetStateRoot bh h))
   \<and> take 32 (Commitment (SetStateRoot bh h)) = take 32 (Commitment bh @ replicate 32 0)
   \<and> drop 64 (Commitment (SetStateRoot bh h)) = drop 64 (Commitment bh)
   \<and> SetStateRoot bh h = bh\<lparr>Commitment := Commitment (SetStateRoot bh h)\<rparr>"
proof (intro conjI)
  show "length (Commitment bh) \<le> length (Commitment (SetTxRoot bh h))"
    by (simp add: SetTxRoot_Commitment length_copy_into)
  show "drop 32 (Commitment (SetTxRoot bh h)) = drop 32 (Commitment bh)"
    by (simp add: SetTxRoot_Commitment drop_copy_into)
  show "SetTxRoot bh h = bh\<lparr>Commitment := Commitment (SetTxRoot bh h)\<rparr>"
    by (simp add: SetTxRoot_def)
  show "length (Commitment bh) \<le> length (Commitment (SetStateRoot bh h))"
    by (simp add: SetStateRoot_Commitment length_copy_into)
  show "take 32 (Commitment (SetStateRoot bh h)) = take 32 (Commitment bh @ replicate 32 0)"
    by (simp add: SetStateRoot_Commitment take_copy_into)
  show "drop 64 (Commitment (SetStateRoot bh h)) = drop 64 (Commitment bh)"
    by (simp add: SetStateRoot_Commitment drop_copy_into)
  show "SetStateRoot bh h = bh\<lparr>Commitment := Commitment (SetStateRoot bh h)\<rparr>"
    by (simp add: SetStateRoot_def)
qed

text \<open>
  C5. \<open>TxRoot\<close> is the first 32 bytes of the commitment and \<open>StateRoot\<close> the next 32,
  each the zero digest when the commitment is too short to hold the slot. Starting from
  an empty commitment, setting the transaction root and then the state root gives a
  commitment of 64 bytes from which both digests read back.
\<close>

theorem commitment_roots:
  assumes "length d1 = 32" and "length d2 = 32"
  shows "TxRoot bh = (if 32 \<le> length (Commitment bh) then take 32 (Commitment bh)
                      else replicate 32 0)
       \<and> StateRoot bh = (if 64 \<le> length (Commitment bh) then take 32 (drop 32 (Commitment bh))
                      else replicate 32 0)
       \<and> TxRoot (SetStateRoot (SetTxRoot (bh\<lparr>Commitment := []\<rparr>) d1) d2) = d1
       \<and> StateRoot (SetStateRoot (SetTxRoot (bh\<lparr>Commitment := []\<rparr>) d1) d2) = d2
       \<and> length (Commitment (SetStateRoot (SetTxRoot (bh\<lparr>Commitment := []\<rparr>) d1) d2)) = 64"
  using assms
  by (simp add: TxRoot_def StateRoot_def SetTxRoot_def SetStateRoot_def copy_into_def
        slice_def Let_def copy_bytes_def)

theorem commitment_roots_witness:
  "TxRoot (SetStateRoot (SetTxRoot (exHeader\<lparr>Commitment := []\<rparr>) (replicate 32 1)) (replicate 32 2))
     = replicate 32 1
   \<and> StateRoot (SetStateRoot (SetTxRoot (exHeader\<lparr>Commitment := []\<rparr>) (replicate 32 1)) (replicate 32 2))
     = replicate 32 2
   \<and> TxRoot exHeader = replicate 32 0"
  using commitment_roots [of "replicate 32 1" "replicate 32 2" exHeader]
    commitment_roots [of "replicate 32 1" "replicate 32 2" exHeader, THEN conjunct1]
  by (simp add: exHeader_def)

section \<open>The reader keeps its first error\<close>

lemma ReadFull_failed: "Err r = Some e \<Longrightarrow> ReadFull r p = (p, r)"
  by (simp add: ReadFull_def)

lemma ReadUint32_failed: "Err r = Some e \<Longrightarrow> snd (ReadUint32 r) = r"
  by (simp add: ReadUint32_def ReadFull_failed)

lemma ReadUint64_failed: "Err r = Some e \<Longrightarrow> snd (ReadUint64 r) = r"
  by (simp add: ReadUint64_def ReadFull_failed)

lemma ReadUvarint_failed: "Err r = Some e \<Longrightarrow> ReadUvarint r = (0, r)"
  by (simp add: ReadUvarint_def)

lemma ReadBytes_failed: "Err r = Some e \<Longrightarrow> ReadBytes r b = (b, r)"
  by (simp add: ReadBytes_def ReadUvarint_failed)

lemma BlockHeader_readFrom_failed:
  "Err r = Some e \<Longrightarrow> snd (BlockHeader_readFrom bh r) = r"
  by (simp add: BlockHeader_readFrom_def ReadUint32_def ReadUint64_def ReadFull_failed
        ReadBytes_failed)

lemma TxData_readFrom_failed: "Err r = Some e \<Longrightarrow> TxData_readFrom C r = (failed C, r)"
  by (simp add: TxData_readFrom_def)

lemma readTxs_failed: "Err r = Some e \<Longrightarrow> snd (readTxs C n b r) = r"
  by (induction n arbitrary: b) (simp_all add: TxData_readFrom_failed)

section \<open>Which errors a decode can end with\<close>

lemma get_uvarint_error:
  "get_uvarint i x bs = Inl e \<Longrightarrow> e \<noteq> InvalidStoredValue"
  by (induction i x bs rule: get_uvarint.induct) (auto split: if_splits)

lemma ReadFull_error:
  "Err r \<noteq> Some InvalidStoredValue \<Longrightarrow> Err (snd (ReadFull r p)) \<noteq> Some InvalidStoredValue"
  by (simp add: ReadFull_def)

lemma ReadUint32_error:
  "Err r \<noteq> Some InvalidStoredValue \<Longrightarrow> Err (snd (ReadUint32 r)) \<noteq> Some InvalidStoredValue"
  using ReadFull_error [of r "replicate 4 0"] by (simp add: ReadUint32_def split_beta)

lemma ReadUint64_error:
  "Err r \<noteq> Some InvalidStoredValue \<Longrightarrow> Err (snd (ReadUint64 r)) \<noteq> Some InvalidStoredValue"
  using ReadFull_error [of r "replicate 8 0"] by (simp add: ReadUint64_def split_beta)

lemma ReadUvarint_error:
  "Err r \<noteq> Some InvalidStoredValue \<Longrightarrow> Err (snd (ReadUvarint r)) \<noteq> Some InvalidStoredValue"
  by (auto simp add: ReadUvarint_def dest: get_uvarint_error split: sum.splits)

lemma ReadBytes_error:
  "Err r \<noteq> Some InvalidStoredValue \<Longrightarrow> Err (snd (ReadBytes r b)) \<noteq> Some InvalidStoredValue"
  using ReadUvarint_error [of r]
  by (auto simp add: ReadBytes_def split_beta dest: ReadFull_error)

lemma BlockHeader_readFrom_error:
  assumes "Err r \<noteq> Some InvalidStoredValue"
  shows "Err (snd (BlockHeader_readFrom bh r)) \<noteq> Some InvalidStoredValue"
  unfolding BlockHeader_readFrom_def split_beta Let_def snd_conv
  by (intro ReadBytes_error ReadUint64_error ReadFull_error ReadUint32_error assms)

lemma TxData_readFrom_error:
  assumes "\<And>bs. snd (snd (decode C bs)) \<noteq> Some InvalidStoredValue"
    and "Err r \<noteq> Some InvalidStoredValue"
  shows "Err (snd (TxData_readFrom C r)) \<noteq> Some InvalidStoredValue"
  using assms by (simp add: TxData_readFrom_def split_beta)

lemma readTxs_error:
  assumes "\<And>bs. snd (snd (decode C bs)) \<noteq> Some InvalidStoredValue"
  shows "Err r \<noteq> Some InvalidStoredValue \<Longrightarrow>
         Err (snd (readTxs C n b r)) \<noteq> Some InvalidStoredValue"
proof (induction n arbitrary: b r)
  case 0
  then show ?case by simp
next
  case (Suc n)
  from TxData_readFrom_error [OF assms Suc.prems]
  show ?case by (simp add: split_beta Suc.IH)
qed

lemma Block_readFrom_error:
  assumes "\<And>bs. snd (snd (decode C bs)) \<noteq> Some InvalidStoredValue"
    and "Err r \<noteq> Some InvalidStoredValue"
  shows "Err (snd (Block_readFrom C b r)) \<noteq> Some InvalidStoredValue"
  unfolding Block_readFrom_def split_beta Let_def
  by (intro readTxs_error ReadUvarint_error BlockHeader_readFrom_error assms)

lemma bytesCodec_error: "snd (snd (decode bytesCodec bs)) \<noteq> Some InvalidStoredValue"
  using ReadBytes_error [of "NewReader bs" "[]"]
  by (simp add: bytesCodec_def split_beta NewReader_def)

text \<open>
  C7. A stored value that is not a byte slice makes both \<open>Scan\<close> functions return the
  error of their own, \<open>InvalidStoredValue\<close>, with the receiver as it was: nothing is
  decoded. A byte slice never gives that error: for a header outright, for a block as
  long as the payload codec, a parameter, does not produce it itself.
\<close>

theorem scan_invalid_stored_value:
  "((\<forall>buf. val \<noteq> VBytes buf) \<longrightarrow>
      BlockHeader_Scan bh val = (bh, Some InvalidStoredValue)
      \<and> Block_Scan C b val = (b, Some InvalidStoredValue))
   \<and> snd (BlockHeader_Scan bh (VBytes buf)) \<noteq> Some InvalidStoredValue
   \<and> ((\<forall>bs. snd (snd (decode C bs)) \<noteq> Some InvalidStoredValue) \<longrightarrow>
        snd (Block_Scan C b (VBytes buf)) \<noteq> Some InvalidStoredValue)"
proof (intro conjI impI)
  assume "\<forall>buf. val \<noteq> VBytes buf"
  then show "BlockHeader_Scan bh val = (bh, Some InvalidStoredValue)"
    and "Block_Scan C b val = (b, Some InvalidStoredValue)"
    by (cases val; simp add: BlockHeader_Scan_def Block_Scan_def)+
next
  show "snd (BlockHeader_Scan bh (VBytes buf)) \<noteq> Some InvalidStoredValue"
    using BlockHeader_readFrom_error [of "NewReader buf" bh]
    by (simp add: BlockHeader_Scan_def split_beta NewReader_def Let_def)
next
  assume "\<forall>bs. snd (snd (decode C bs)) \<noteq> Some InvalidStoredValue"
  then show "snd (Block_Scan C b (VBytes buf)) \<noteq> Some InvalidStoredValue"
    using Block_readFrom_error [of C "NewReader buf" b]
    by (simp add: Block_Scan_def split_beta NewReader_def Let_def)
qed

theorem scan_invalid_stored_value_witness:
  "BlockHeader_Scan exHeader (VString ''block'') = (exHeader, Some InvalidStoredValue)
   \<and> Block_Scan bytesCodec exBlock (VInt64 7) = (exBlock, Some InvalidStoredValue)
   \<and> snd (Block_Scan bytesCodec exBlock (VBytes exTruncated)) \<noteq> Some InvalidStoredValue"
proof -
  have a: "\<forall>buf. VString ''block'' \<noteq> VBytes buf" by simp
  have b: "\<forall>buf. VInt64 7 \<noteq> VBytes buf" by simp
  have c: "\<forall>bs. snd (snd (decode bytesCodec bs)) \<noteq> Some InvalidStoredValue"
    by (simp add: bytesCodec_error)
  show ?thesis
    using scan_invalid_stored_value [of "VString ''block''" exHeader bytesCodec exBlock exTruncated]
      scan_invalid_stored_value [of "VInt64 7" exHeader bytesCodec exBlock exTruncated]
      a b c
    by blast
qed

section \<open>The transaction loop\<close>

lemma readTxs_add:
  "readTxs C (k + m) b r = (case readTxs C k b r of (b', r') \<Rightarrow> readTxs C m b' r')"
  by (induction k arbitrary: b r) (simp_all add: split_beta Let_def)

lemma readTxs_Header: "BlockHeader (fst (readTxs C n b r)) = BlockHeader b"
  by (induction n arbitrary: b r) (simp_all add: split_beta)

lemma readTxs_appends:
  "Transactions (fst (readTxs C n b r)) =
     Transactions b @ Transactions (fst (readTxs C n (b\<lparr>Transactions := []\<rparr>) r))"
proof (induction n arbitrary: b r)
  case 0
  show ?case by simp
next
  case (Suc n)
  let ?r = "snd (TxData_readFrom C r)"
  let ?tx = "NewTx C (fst (TxData_readFrom C r))"
  have "Transactions (fst (readTxs C (Suc n) b r))
        = Transactions (fst (readTxs C n (b\<lparr>Transactions := Transactions b @ [?tx]\<rparr>) ?r))"
    by (simp add: split_beta)
  also have "\<dots> = (Transactions b @ [?tx])
                   @ Transactions (fst (readTxs C n (b\<lparr>Transactions := []\<rparr>) ?r))"
    using Suc.IH [of "b\<lparr>Transactions := Transactions b @ [?tx]\<rparr>" ?r] by simp
  also have "\<dots> = Transactions b
                   @ Transactions (fst (readTxs C n (b\<lparr>Transactions := [?tx]\<rparr>) ?r))"
    using Suc.IH [of "b\<lparr>Transactions := [?tx]\<rparr>" ?r] by simp
  also have "\<dots> = Transactions b
                   @ Transactions (fst (readTxs C (Suc n) (b\<lparr>Transactions := []\<rparr>) r))"
    by (simp add: split_beta)
  finally show ?case .
qed

lemma readTxs_prefix:
  "take (length (Transactions (fst (readTxs C k b r)))) (Transactions (fst (readTxs C (k + m) b r)))
     = Transactions (fst (readTxs C k b r))"
proof -
  obtain b' r' where kr: "readTxs C k b r = (b', r')" by (cases "readTxs C k b r")
  have "Transactions (fst (readTxs C m b' r')) =
          Transactions b' @ Transactions (fst (readTxs C m (b'\<lparr>Transactions := []\<rparr>) r'))"
    by (rule readTxs_appends)
  then show ?thesis by (simp add: readTxs_add kr)
qed

lemma Block_update_swap:
  "b\<lparr>Transactions := t, BlockHeader := h\<rparr> = b\<lparr>BlockHeader := h, Transactions := t\<rparr>"
  by (cases b) simp

lemma Block_readFrom_appends:
  "Transactions (fst (Block_readFrom C b r)) =
     Transactions b @ Transactions (fst (Block_readFrom C (b\<lparr>Transactions := []\<rparr>) r))"
  using readTxs_appends
    [of C "unat (fst (ReadUvarint (snd (BlockHeader_readFrom (BlockHeader b) r))))"
       "b\<lparr>BlockHeader := fst (BlockHeader_readFrom (BlockHeader b) r)\<rparr>"
       "snd (ReadUvarint (snd (BlockHeader_readFrom (BlockHeader b) r)))"]
  by (simp add: Block_readFrom_def split_beta Let_def Block_update_swap)

text \<open>
  C2 as stated fails on the stored bytes of a block of two transactions with the last
  byte cut off: \<open>Scan\<close> reports the truncation, and the receiver, fresh before the call,
  now holds the header and the first transaction.
\<close>

theorem block_scan_partial_counterexample:
  "snd (Block_Scan bytesCodec zeroBlock (VBytes exTruncated)) = Some TruncatedInput
   \<and> fst (Block_Scan bytesCodec zeroBlock (VBytes exTruncated)) \<noteq> zeroBlock
   \<and> BlockHeader (fst (Block_Scan bytesCodec zeroBlock (VBytes exTruncated))) = exHeader
   \<and> hd (Transactions (fst (Block_Scan bytesCodec zeroBlock (VBytes exTruncated))))
       = NewTx bytesCodec [1, 2]
   \<and> Block_Scan_within 2 bytesCodec zeroBlock (VBytes exTruncated)
       = Some (Block_Scan bytesCodec zeroBlock (VBytes exTruncated))"
  by code_simp

text \<open>
  C10. Decoding appends. Whatever the input, the transactions of the receiver after
  \<open>readFrom\<close> are the ones it had before followed by the ones a receiver with an empty
  list would have got. For the stored bytes of a block \<open>x\<close>, the receiver ends with
  the header of \<open>x\<close> and its own transactions followed by those of \<open>x\<close>; it equals
  \<open>x\<close> exactly when it had no transactions before.
\<close>

theorem block_decode_appends:
  assumes "header_ok (BlockHeader x)" and "length (Transactions x) < 2 ^ 64"
    and "\<forall>tx \<in> set (Transactions x). tx = NewTx C (payload tx) \<and>
           (\<forall>rest. decode C (encode C (payload tx) @ rest) = (payload tx, rest, None))"
    and "length (PreviousBlockHash (BlockHeader b)) = 32"
  shows "Transactions (fst (Block_readFrom C b r)) =
           Transactions b @ Transactions (fst (Block_readFrom C (b\<lparr>Transactions := []\<rparr>) r))
       \<and> Block_readFrom C b (NewReader (Block_WriteTo C [] x))
           = (\<lparr>BlockHeader = BlockHeader x, Transactions = Transactions b @ Transactions x\<rparr>,
              \<lparr>R = [], Err = None\<rparr>)
       \<and> ((fst (Block_readFrom C b (NewReader (Block_WriteTo C [] x))) = x)
            = (Transactions b = []))"
proof -
  have dec: "Block_readFrom C b (NewReader (Block_WriteTo C [] x))
           = (\<lparr>BlockHeader = BlockHeader x, Transactions = Transactions b @ Transactions x\<rparr>,
              \<lparr>R = [], Err = None\<rparr>)"
    using Block_readFrom_writeTo [OF assms, of "[]"]
    by (simp add: NewReader_def Block_WriteTo_def)
  have "(\<lparr>BlockHeader = BlockHeader x, Transactions = Transactions b @ Transactions x\<rparr> = x)
          = (Transactions b = [])"
    by (cases x) simp
  with dec Block_readFrom_appends [of C b r] show ?thesis by simp
qed

theorem block_decode_appends_witness:
  "Block_readFrom bytesCodec exBlock (NewReader (Block_WriteTo bytesCodec [] exBlock))
     = (\<lparr>BlockHeader = exHeader,
         Transactions = [NewTx bytesCodec [1, 2], NewTx bytesCodec [3],
                         NewTx bytesCodec [1, 2], NewTx bytesCodec [3]]\<rparr>,
        \<lparr>R = [], Err = None\<rparr>)
   \<and> fst (Block_readFrom bytesCodec exBlock (NewReader (Block_WriteTo bytesCodec [] exBlock)))
       \<noteq> exBlock"
proof -
  have h: "header_ok (BlockHeader exBlock)"
    by (simp add: exBlock_def exHeader_ok)
  have n: "length (Transactions exBlock) < 2 ^ 64"
    by (simp add: exBlock_def)
  have txs: "\<forall>tx \<in> set (Transactions exBlock). tx = NewTx bytesCodec (payload tx) \<and>
     (\<forall>rest. decode bytesCodec (encode bytesCodec (payload tx) @ rest) = (payload tx, rest, None))"
    by (simp add: exBlock_def NewTx_def bytesCodec_round_trip)
  have p: "length (PreviousBlockHash (BlockHeader exBlock)) = 32"
    by (simp add: exBlock_def exHeader_def)
  show ?thesis
    using block_decode_appends [OF h n txs p] by (simp add: exBlock_def)
qed

section \<open>The commitment field is read as it comes\<close>

lemma ReadUint32_any:
  "length q = 4 \<Longrightarrow>
   ReadUint32 \<lparr>R = q @ rest, Err = None\<rparr> = (get_le q, \<lparr>R = rest, Err = None\<rparr>)"
  by (simp add: ReadUint32_def ReadFull_ok)

lemma ReadUint64_any:
  "length q = 8 \<Longrightarrow>
   ReadUint64 \<lparr>R = q @ rest, Err = None\<rparr> = (get_le q, \<lparr>R = rest, Err = None\<rparr>)"
  by (simp add: ReadUint64_def ReadFull_ok)

lemma WriteBytes_bytes: "WriteBytes w b = w @ put_uvarint (of_nat (length b)) @ b"
  by (simp add: WriteBytes_def Write_def WriteUvarint_def)

text \<open>The part of \<open>BlockHeader.readFrom\<close> up to and including the commitment.\<close>

lemma header_prefix_read:
  assumes "length pre = 44" and "length c < 2 ^ 64" and "length (PreviousBlockHash bh) = 32"
  shows "BlockHeader_readFrom bh \<lparr>R = pre @ WriteBytes [] c @ rest, Err = None\<rparr>
       = (let bh = bh\<lparr>Version := get_le (take 4 pre), Height := get_le (take 8 (drop 4 pre)),
                       PreviousBlockHash := drop 12 pre, Commitment := c\<rparr>;
              r = \<lparr>R = rest, Err = None\<rparr>;
              (t, r) = ReadUint64 r;
              bh = bh\<lparr>Timestamp := t\<rparr>;
              (s, r) = ReadBytes r (SignatureScript bh);
              bh = bh\<lparr>SignatureScript := s\<rparr>;
              (out, r) = ReadBytes r (OutputScript bh);
              bh = bh\<lparr>OutputScript := out\<rparr>
          in (bh, r))"
proof -
  define a b p where "a = take 4 pre" and "b = take 8 (drop 4 pre)" and "p = drop 12 pre"
  have "drop 12 pre = drop 8 (drop 4 pre)" by simp
  then have pre: "pre = a @ b @ p"
    by (simp only: a_def b_def p_def append_take_drop_id)
  have len: "length a = 4" "length b = 8" "length p = 32"
    using assms(1) by (simp_all add: a_def b_def p_def)
  have "BlockHeader_readFrom bh \<lparr>R = (a @ b @ p) @ WriteBytes [] c @ rest, Err = None\<rparr>
       = (let bh = bh\<lparr>Version := get_le a, Height := get_le b,
                       PreviousBlockHash := p, Commitment := c\<rparr>;
              r = \<lparr>R = rest, Err = None\<rparr>;
              (t, r) = ReadUint64 r;
              bh = bh\<lparr>Timestamp := t\<rparr>;
              (s, r) = ReadBytes r (SignatureScript bh);
              bh = bh\<lparr>SignatureScript := s\<rparr>;
              (out, r) = ReadBytes r (OutputScript bh);
              bh = bh\<lparr>OutputScript := out\<rparr>
          in (bh, r))"
    using len assms(2,3)
    by (simp add: BlockHeader_readFrom_def WriteBytes_bytes ReadUint32_any ReadUint64_any
          ReadFull_ok ReadBytes_ok)
  moreover have "take 4 pre @ take 8 (drop 4 pre) @ drop 12 pre = pre"
    using pre by (simp only: a_def b_def p_def)
  ultimately show ?thesis
    by (simp only: a_def b_def p_def)
qed

text \<open>
  C9. The commitment is read as a count and that many bytes, whatever the count: with
  the three fixed-width fields before it (44 bytes) and any commitment \<open>c\<close>, the
  header decoded holds \<open>c\<close> itself, and the decode ends with the same error, or with
  none, as it does when the commitment is empty. The error is never anything but a
  truncation or a malformed integer.
\<close>

theorem commitment_read_verbatim:
  assumes "length pre = 44" and "length c < 2 ^ 64" and "length (PreviousBlockHash bh) = 32"
  shows "Commitment (fst (BlockHeader_readFrom bh
                            \<lparr>R = pre @ WriteBytes [] c @ rest, Err = None\<rparr>)) = c
       \<and> Err (snd (BlockHeader_readFrom bh \<lparr>R = pre @ WriteBytes [] c @ rest, Err = None\<rparr>))
         = Err (snd (BlockHeader_readFrom bh \<lparr>R = pre @ WriteBytes [] [] @ rest, Err = None\<rparr>))
       \<and> Err (snd (BlockHeader_readFrom bh (NewReader buf)))
           \<in> {None, Some TruncatedInput, Some MalformedValue}"
proof (intro conjI)
  show "Commitment (fst (BlockHeader_readFrom bh
                            \<lparr>R = pre @ WriteBytes [] c @ rest, Err = None\<rparr>)) = c"
    by (simp add: header_prefix_read [OF assms] split_beta Let_def)
  have "length ([] :: byte list) < 2 ^ 64" by simp
  note empty = header_prefix_read [OF assms(1) this assms(3)]
  show "Err (snd (BlockHeader_readFrom bh \<lparr>R = pre @ WriteBytes [] c @ rest, Err = None\<rparr>))
         = Err (snd (BlockHeader_readFrom bh \<lparr>R = pre @ WriteBytes [] [] @ rest, Err = None\<rparr>))"
    by (simp add: header_prefix_read [OF assms] empty split_beta Let_def)
  have "Err (snd (BlockHeader_readFrom bh (NewReader buf))) \<noteq> Some InvalidStoredValue"
    by (rule BlockHeader_readFrom_error) (simp add: NewReader_def)
  then show "Err (snd (BlockHeader_readFrom bh (NewReader buf)))
           \<in> {None, Some TruncatedInput, Some MalformedValue}"
    by (cases "Err (snd (BlockHeader_readFrom bh (NewReader buf)))")
       (simp, metis error.exhaust insertCI)
qed


theorem commitment_read_verbatim_witness:
  "length (replicate 44 (1 :: byte)) = 44
   \<and> Commitment (fst (BlockHeader_readFrom zeroHeader
        \<lparr>R = replicate 44 1 @ WriteBytes [] [1, 2, 3, 4, 5] @ put_le 8 (7 :: uint64) @ [0, 0],
          Err = None\<rparr>)) = [1, 2, 3, 4, 5]
   \<and> Err (snd (BlockHeader_readFrom zeroHeader
        \<lparr>R = replicate 44 1 @ WriteBytes [] [1, 2, 3, 4, 5] @ put_le 8 (7 :: uint64) @ [0, 0],
          Err = None\<rparr>)) = None
   \<and> Err (snd (BlockHeader_readFrom zeroHeader
        \<lparr>R = replicate 44 1 @ WriteBytes [] [] @ put_le 8 (7 :: uint64) @ [0, 0],
          Err = None\<rparr>)) = None"
proof -
  have a: "length (replicate 44 (1 :: byte)) = 44" by simp
  have b: "length [1, 2, 3, 4, 5 :: byte] < 2 ^ 64" by simp
  have c: "length (PreviousBlockHash zeroHeader) = 32" by (simp add: zeroHeader_def)
  have d: "Err (snd (BlockHeader_readFrom zeroHeader
        \<lparr>R = replicate 44 1 @ WriteBytes [] [] @ put_le 8 (7 :: uint64) @ [0, 0],
          Err = None\<rparr>)) = None"
    by code_simp
  show ?thesis
    using commitment_read_verbatim [OF a b c, of "put_le 8 (7 :: uint64) @ [0, 0]" "[]"] d
    by simp
qed

section \<open>Time\<close>

lemma sint_small: "unat (w :: uint64) < 2 ^ 63 \<Longrightarrow> sint w = int (unat w)"
proof -
  assume a: "unat w < 2 ^ 63"
  have "int (unat w) < int (2 ^ 63)" using a by (simp only: of_nat_less_iff)
  then have b: "uint w < 2 ^ 63" by simp
  have c: "- (2 ^ 63) \<le> uint w"
    by (rule order_trans [of _ 0]) simp_all
  have "signed_take_bit 63 (uint w) = uint w"
    using c b by (rule signed_take_bit_int_eq_self)
  then show ?thesis by (simp add: sint_uint)
qed

lemma time_Unix_0: "time_Unix s 0 = \<lparr>sec = s + unixToInternal, nsec = 0, loc = Local\<rparr>"
  by (simp add: time_Unix_def)

lemma unat_plus_internal:
  "unat (w :: uint64) < 9223371974719179008 \<Longrightarrow>
   unat (w + unixToInternal) = unat w + 62135596800"
proof -
  assume a: "unat w < 9223371974719179008"
  have "unat (w + 62135596800) = (unat w + unat (62135596800 :: uint64)) mod 2 ^ 64"
    by (simp only: unat_word_ariths(1)) simp
  also have "\<dots> = unat w + 62135596800" using a by simp
  finally show ?thesis by (simp add: unixToInternal_def)
qed

text \<open>
  C8, as the code has it. A timestamp below \<open>2^63 - 62135596800\<close>, that is below
  9223371974719179008, gives the instant that many whole seconds after the epoch, in
  UTC and with no fraction of a second; that instant is not before the epoch.
\<close>

theorem header_time:
  "unat (Timestamp bh) < 9223371974719179008 \<Longrightarrow>
   secondsSinceEpoch (BlockHeader_Time bh) = int (unat (Timestamp bh))
   \<and> nsec (BlockHeader_Time bh) = 0
   \<and> loc (BlockHeader_Time bh) = UTC
   \<and> \<not> Time_Before (BlockHeader_Time bh) (time_UTC (time_Unix 0 0))"
proof -
  assume a: "unat (Timestamp bh) < 9223371974719179008"
  have u: "unat (Timestamp bh + unixToInternal) = unat (Timestamp bh) + 62135596800"
    using a by (rule unat_plus_internal)
  then have "unat (Timestamp bh + unixToInternal) < 2 ^ 63" using a by simp
  then have s: "sint (Timestamp bh + unixToInternal) = int (unat (Timestamp bh)) + 62135596800"
    using u by (simp add: sint_small)
  have e: "sint (unixToInternal) = 62135596800"
    by (simp add: unixToInternal_def)
  show ?thesis
    using s e
    by (simp add: BlockHeader_Time_def time_UTC_def time_Unix_0 secondsSinceEpoch_def
          Time_Before_def word_sless_alt)
qed

theorem header_time_witness:
  "unat (Timestamp exHeader) < 9223371974719179008
   \<and> secondsSinceEpoch (BlockHeader_Time exHeader) = 1000
   \<and> nsec (BlockHeader_Time exHeader) = 0
   \<and> loc (BlockHeader_Time exHeader) = UTC"
proof -
  have a: "unat (Timestamp exHeader) < 9223371974719179008" by (simp add: exHeader_def)
  show ?thesis using header_time [OF a] a by (simp add: exHeader_def)
qed

text \<open>
  C8 as stated fails at the largest timestamp: the instant returned is one second
  before the epoch, not \<open>2^64 - 1\<close> seconds after it. It fails as well at
  9223371974719179008, a timestamp below \<open>2^63\<close>: the seconds kept wrap around and
  the instant returned is before the epoch.
\<close>

theorem time_wraps_counterexample:
  "secondsSinceEpoch (BlockHeader_Time (zeroHeader\<lparr>Timestamp := 0xFFFFFFFFFFFFFFFF\<rparr>)) = - 1
   \<and> secondsSinceEpoch (BlockHeader_Time (zeroHeader\<lparr>Timestamp := 0xFFFFFFFFFFFFFFFF\<rparr>))
       \<noteq> int (unat (0xFFFFFFFFFFFFFFFF :: uint64))
   \<and> secondsSinceEpoch (BlockHeader_Time (zeroHeader\<lparr>Timestamp := 9223371974719179008\<rparr>))
       \<noteq> int (unat (9223371974719179008 :: uint64))
   \<and> Time_Before (BlockHeader_Time (zeroHeader\<lparr>Timestamp := 9223371974719179008\<rparr>))
        (time_UTC (time_Unix 0 0))"
  by (simp add: BlockHeader_Time_def time_UTC_def time_Unix_0 zeroHeader_def
        secondsSinceEpoch_def Time_Before_def unixToInternal_def)

section \<open>Decoding into a slice of bounded length\<close>

lemma readTxs_length:
  "length (Transactions (fst (readTxs C n b r))) = length (Transactions b) + n"
  by (induction n arbitrary: b r) (simp_all add: split_beta Let_def)

lemma readTxs_within_eq:
  "length (Transactions b) \<le> limit \<Longrightarrow>
   readTxs_within limit C n b r =
     (if length (Transactions b) + n \<le> limit then Some (readTxs C n b r) else None)"
proof (induction n arbitrary: b r)
  case 0
  then show ?case by simp
next
  case (Suc n)
  show ?case
  proof (cases "length (Transactions b) < limit")
    case True
    then show ?thesis
      by (simp add: split_beta Let_def append_within_def Suc.IH)
  next
    case False
    then show ?thesis
      by (simp add: split_beta Let_def append_within_def)
  qed
qed

lemma Block_Scan_within_eq:
  "length (Transactions b) \<le> limit \<Longrightarrow>
   Block_Scan_within limit C b (VBytes buf) =
     (if length (Transactions b)
           + unat (fst (ReadUvarint (snd (BlockHeader_readFrom (BlockHeader b) (NewReader buf)))))
         \<le> limit
      then Some (Block_Scan C b (VBytes buf)) else None)"
  by (simp add: Block_Scan_within_def Block_readFrom_within_def Block_Scan_def
        Block_readFrom_def readTxs_within_eq split_beta Let_def)


lemma scan_first_error_unbounded:
  assumes "BlockHeader_readFrom (BlockHeader b) (NewReader buf) = (bh, r1)"
    and "ReadUvarint r1 = (n, r2)"
    and "k \<le> unat n"
    and "readTxs C k (b\<lparr>BlockHeader := bh\<rparr>) r2 = (bk, rk)"
    and "Err rk = Some e"
  shows "snd (Block_Scan C b (VBytes buf)) = Some e
       \<and> BlockHeader (fst (Block_Scan C b (VBytes buf))) = bh
       \<and> take (length (Transactions bk)) (Transactions (fst (Block_Scan C b (VBytes buf))))
           = Transactions bk"
proof -
  obtain m where n: "unat n = k + m"
    using assms(3) by (auto simp add: le_iff_add)
  have scan: "Block_Scan C b (VBytes buf)
        = (fst (readTxs C (k + m) (b\<lparr>BlockHeader := bh\<rparr>) r2),
           Err (snd (readTxs C (k + m) (b\<lparr>BlockHeader := bh\<rparr>) r2)))"
    by (simp add: Block_Scan_def Block_readFrom_def assms(1,2) n split_beta Let_def)
  have "snd (readTxs C (k + m) (b\<lparr>BlockHeader := bh\<rparr>) r2) = rk"
    using readTxs_failed [OF assms(5), of C m bk] by (simp add: readTxs_add assms(4))
  moreover have "take (length (Transactions bk))
                   (Transactions (fst (readTxs C (k + m) (b\<lparr>BlockHeader := bh\<rparr>) r2)))
                 = Transactions bk"
    using readTxs_prefix [of C k "b\<lparr>BlockHeader := bh\<rparr>" r2 m] by (simp add: assms(4))
  ultimately show ?thesis
    by (simp add: scan assms(5) readTxs_Header)
qed

text \<open>
  When the count read from the input is more than the slice has room for, the loop of
  \<open>Block.readFrom\<close>, which goes on after a failed read, reaches an \<open>append\<close> that does
  not return: \<open>Scan\<close> gives no error then, as for a header followed by a count of
  \<open>2^64 - 1\<close> and nothing else.
\<close>

lemma block_scan_beyond_limit:
  assumes "BlockHeader_readFrom (BlockHeader b) (NewReader buf) = (bh, r1)"
    and "ReadUvarint r1 = (n, r2)"
    and "length (Transactions b) \<le> limit"
    and "limit < length (Transactions b) + unat n"
  shows "Block_Scan_within limit C b (VBytes buf) = None"
  using assms(3,4) by (simp add: Block_Scan_within_eq assms(1,2))

lemma block_scan_count_without_payload:
  assumes "limit < 2 ^ 64 - 1"
  shows "Block_Scan_within limit C zeroBlock
           (VBytes (BlockHeader_Value exHeader @ put_uvarint 0xFFFFFFFFFFFFFFFF)) = None"
proof -
  have h: "BlockHeader_readFrom (BlockHeader (zeroBlock :: 'a Block))
             (NewReader (BlockHeader_Value exHeader @ put_uvarint 0xFFFFFFFFFFFFFFFF))
           = (exHeader, \<lparr>R = put_uvarint 0xFFFFFFFFFFFFFFFF, Err = None\<rparr>)"
    using BlockHeader_readFrom_writeTo [OF exHeader_ok zeroHeader_hash_length]
    by (simp add: NewReader_def BlockHeader_Value_def BlockHeader_WriteTo_def zeroBlock_def)
  have c: "ReadUvarint \<lparr>R = put_uvarint 0xFFFFFFFFFFFFFFFF, Err = None\<rparr>
           = (0xFFFFFFFFFFFFFFFF, \<lparr>R = [], Err = None\<rparr>)"
    using ReadUvarint_ok [of "0xFFFFFFFFFFFFFFFF" "[]"] by simp
  show ?thesis
    using assms by (intro block_scan_beyond_limit [OF h c]) (simp_all add: zeroBlock_def)
qed

text \<open>
  C2, as the code has it. Take an input whose count of transactions is no more than
  the receiver's slice has room for. Whatever makes the decode fail (the header, the
  count, or a transaction), \<open>Scan\<close> returns the first error met: if the reader has
  failed with \<open>e\<close> after the header, the count and \<open>k\<close> of the announced transactions,
  then \<open>e\<close> is the error returned. \<open>Scan\<close> returns nothing but the error; it works on
  its receiver in place, which afterwards holds the header as read and still has the
  transactions read up to the failure appended.
\<close>

theorem block_scan_first_error:
  assumes "BlockHeader_readFrom (BlockHeader b) (NewReader buf) = (bh, r1)"
    and "ReadUvarint r1 = (n, r2)"
    and "length (Transactions b) + unat n \<le> limit"
    and "k \<le> unat n"
    and "readTxs_within limit C k (b\<lparr>BlockHeader := bh\<rparr>) r2 = Some (bk, rk)"
    and "Err rk = Some e"
  shows "\<exists>b'. Block_Scan_within limit C b (VBytes buf) = Some (b', Some e)
            \<and> BlockHeader b' = bh
            \<and> take (length (Transactions bk)) (Transactions b') = Transactions bk"
proof -
  have room: "length (Transactions b) \<le> limit"
    using assms(3) by simp
  have "length (Transactions (b\<lparr>BlockHeader := bh\<rparr>)) \<le> limit"
    using room by simp
  from readTxs_within_eq [OF this, of C k r2] assms(5)
  have k: "readTxs C k (b\<lparr>BlockHeader := bh\<rparr>) r2 = (bk, rk)"
    by (simp split: if_splits)
  have "Block_Scan_within limit C b (VBytes buf) = Some (Block_Scan C b (VBytes buf))"
    using assms(3) by (simp add: Block_Scan_within_eq [OF room] assms(1,2))
  with scan_first_error_unbounded [OF assms(1,2,4) k assms(6)]
  show ?thesis
    by (intro exI [of _ "fst (Block_Scan C b (VBytes buf))"])
       (cases "Block_Scan C b (VBytes buf)", simp)
qed

theorem block_scan_first_error_witness:
  "BlockHeader_readFrom (BlockHeader (zeroBlock :: (byte list) Block)) (NewReader exTruncated)
     = (exHeader, \<lparr>R = [2, 2, 1, 2, 1], Err = None\<rparr>)
   \<and> ReadUvarint \<lparr>R = [2, 2, 1, 2, 1], Err = None\<rparr> = (2, \<lparr>R = [2, 1, 2, 1], Err = None\<rparr>)
   \<and> readTxs_within 2 bytesCodec 2 (zeroBlock\<lparr>BlockHeader := exHeader\<rparr>)
        \<lparr>R = [2, 1, 2, 1], Err = None\<rparr>
     = Some (\<lparr>BlockHeader = exHeader,
              Transactions = [NewTx bytesCodec [1, 2], NewTx bytesCodec [0]]\<rparr>,
             \<lparr>R = [], Err = Some TruncatedInput\<rparr>)
   \<and> Block_Scan_within 2 bytesCodec zeroBlock (VBytes exTruncated)
     = Some (\<lparr>BlockHeader = exHeader,
              Transactions = [NewTx bytesCodec [1, 2], NewTx bytesCodec [0]]\<rparr>,
             Some TruncatedInput)"
proof -
  have h: "BlockHeader_readFrom (BlockHeader (zeroBlock :: (byte list) Block)) (NewReader exTruncated)
         = (exHeader, \<lparr>R = [2, 2, 1, 2, 1], Err = None\<rparr>)"
    by code_simp
  have c: "ReadUvarint \<lparr>R = [2, 2, 1, 2, 1], Err = None\<rparr>
         = (2, \<lparr>R = [2, 1, 2, 1], Err = None\<rparr>)"
    by code_simp
  have l: "length (Transactions (zeroBlock :: (byte list) Block)) + unat (2 :: uint64) \<le> 2"
    by (simp add: zeroBlock_def)
  have k: "2 \<le> unat (2 :: uint64)" by simp
  have t: "readTxs_within 2 bytesCodec 2 (zeroBlock\<lparr>BlockHeader := exHeader\<rparr>)
             \<lparr>R = [2, 1, 2, 1], Err = None\<rparr>
      = Some (\<lparr>BlockHeader = exHeader,
               Transactions = [NewTx bytesCodec [1, 2], NewTx bytesCodec [0]]\<rparr>,
              \<lparr>R = [], Err = Some TruncatedInput\<rparr>)"
    by code_simp
  have e: "Err \<lparr>R = [], Err = Some TruncatedInput\<rparr> = Some TruncatedInput" by simp
  have s: "Block_Scan_within 2 bytesCodec zeroBlock (VBytes exTruncated)
     = Some (\<lparr>BlockHeader = exHeader,
              Transactions = [NewTx bytesCodec [1, 2], NewTx bytesCodec [0]]\<rparr>,
             Some TruncatedInput)"
    by code_simp
  show ?thesis
    using block_scan_first_error [OF h c l k t e] h c t s by simp
qed

end
